theory Spec2Isabelle
  imports Complex_Main
begin

section \<open>ECMAScript numbers\<close>

text \<open>
  The library computes on ECMAScript Number values: IEEE-754 binary64. A finite
  nonzero double is identified with the rational it denotes, \<open>Fin 0\<close> is \<open>+0\<close>,
  and \<open>NegZero\<close>, the two infinities and \<open>NaN\<close> are separate values. Every
  arithmetic operation computes the exact rational result and rounds it to the
  nearest double, ties to even (\<open>fround\<close>).
\<close>

datatype number = NaN | PosInf | NegInf | NegZero | Fin rat

text \<open>Number of binary digits of a positive integer.\<close>

function bitlen :: "int \<Rightarrow> int" where
  "bitlen n = (if n \<le> 0 then 0 else 1 + bitlen (n div 2))"
  by pat_completeness auto
termination
  by (relation "measure nat") auto

declare bitlen.simps [simp del]

text \<open>Powers with an integer exponent.\<close>

definition ipow :: "rat \<Rightarrow> int \<Rightarrow> rat" where
  "ipow b e = (if 0 \<le> e then b ^ nat e else 1 / b ^ nat (- e))"

text \<open>\<open>ilog2 r\<close> is the integer \<open>e\<close> with \<open>2^e \<le> r < 2^(e+1)\<close>, for positive \<open>r\<close>.\<close>

definition ilog2 :: "rat \<Rightarrow> int" where
  "ilog2 r = (let (p, q) = quotient_of r;
                  d = bitlen p - bitlen q
              in if ipow 2 d \<le> r then d else d - 1)"

definition round_half_even :: "rat \<Rightarrow> int" where
  "round_half_even r = (let f = \<lfloor>r\<rfloor>; d = r - of_int f
     in if d < 1 / 2 then f else if 1 / 2 < d then f + 1
        else if even f then f else f + 1)"

text \<open>
  Rounding of an exact value to binary64: 53 significant bits, least exponent
  \<open>-1022\<close> (subnormals share the quantum \<open>2^-1074\<close>), overflow to an infinity
  from \<open>2^1024\<close> on, and a signed zero on underflow.
\<close>

definition fround :: "rat \<Rightarrow> number" where
  "fround r = (if r = 0 then Fin 0 else
     let a = \<bar>r\<bar>;
         e = max (ilog2 a) (- 1022);
         q = ipow 2 (e - 52);
         n = round_half_even (a / q);
         v = of_int n * q
     in if 1024 \<le> e \<or> (e = 1023 \<and> n = 2 ^ 53) then (if 0 < r then PosInf else NegInf)
        else if n = 0 then (if 0 < r then Fin 0 else NegZero)
        else Fin (if 0 < r then v else - v))"

text \<open>A decimal literal of the program text denotes the double nearest to it.\<close>

definition num_lit :: "rat \<Rightarrow> number" where
  "num_lit r = fround r"

fun is_neg :: "number \<Rightarrow> bool" where
  "is_neg NaN = False"
| "is_neg PosInf = False"
| "is_neg NegInf = True"
| "is_neg NegZero = True"
| "is_neg (Fin r) = (r < 0)"

fun real_val :: "number \<Rightarrow> rat" where
  "real_val (Fin r) = r"
| "real_val _ = 0"

fun is_inf :: "number \<Rightarrow> bool" where
  "is_inf PosInf = True"
| "is_inf NegInf = True"
| "is_inf _ = False"

text \<open>Neither \<open>NaN\<close> nor an infinity.\<close>

fun num_is_finite :: "number \<Rightarrow> bool" where
  "num_is_finite (Fin r) = True"
| "num_is_finite NegZero = True"
| "num_is_finite _ = False"

fun is_zero :: "number \<Rightarrow> bool" where
  "is_zero NegZero = True"
| "is_zero (Fin r) = (r = 0)"
| "is_zero _ = False"

definition signed_inf :: "bool \<Rightarrow> number" where
  "signed_inf neg = (if neg then NegInf else PosInf)"

definition signed_zero :: "bool \<Rightarrow> number" where
  "signed_zero neg = (if neg then NegZero else Fin 0)"

fun num_neg :: "number \<Rightarrow> number" where
  "num_neg NaN = NaN"
| "num_neg PosInf = NegInf"
| "num_neg NegInf = PosInf"
| "num_neg NegZero = Fin 0"
| "num_neg (Fin r) = (if r = 0 then NegZero else Fin (- r))"

text \<open>The operators \<open>+\<close>, \<open>-\<close>, \<open>*\<close> and \<open>/\<close> on Numbers.\<close>

definition num_add :: "number \<Rightarrow> number \<Rightarrow> number" where
  "num_add x y =
     (if x = NaN \<or> y = NaN then NaN
      else if is_inf x then (if is_inf y \<and> x \<noteq> y then NaN else x)
      else if is_inf y then y
      else if x = NegZero \<and> y = NegZero then NegZero
      else let s = real_val x + real_val y in if s = 0 then Fin 0 else fround s)"

definition num_sub :: "number \<Rightarrow> number \<Rightarrow> number" where
  "num_sub x y = num_add x (num_neg y)"

definition num_mul :: "number \<Rightarrow> number \<Rightarrow> number" where
  "num_mul x y =
     (let neg = (is_neg x \<noteq> is_neg y) in
      if x = NaN \<or> y = NaN then NaN
      else if is_inf x \<or> is_inf y then
        (if is_zero x \<or> is_zero y then NaN else signed_inf neg)
      else let p = real_val x * real_val y in
        if p = 0 then signed_zero neg else fround p)"

definition num_div :: "number \<Rightarrow> number \<Rightarrow> number" where
  "num_div x y =
     (let neg = (is_neg x \<noteq> is_neg y) in
      if x = NaN \<or> y = NaN then NaN
      else if is_inf x then (if is_inf y then NaN else signed_inf neg)
      else if is_inf y then signed_zero neg
      else if is_zero y then (if is_zero x then NaN else signed_inf neg)
      else let p = real_val x / real_val y in
        if p = 0 then signed_zero neg else fround p)"

text \<open>The comparisons \<open>x < y\<close> and \<open>x === y\<close> on Numbers.\<close>

fun num_lt :: "number \<Rightarrow> number \<Rightarrow> bool" where
  "num_lt NaN _ = False"
| "num_lt _ NaN = False"
| "num_lt PosInf _ = False"
| "num_lt _ NegInf = False"
| "num_lt NegInf _ = True"
| "num_lt _ PosInf = True"
| "num_lt x y = (real_val x < real_val y)"

definition strict_eq :: "number \<Rightarrow> number \<Rightarrow> bool" where
  "strict_eq x y = (x \<noteq> NaN \<and> y \<noteq> NaN \<and> (x = y \<or> (is_zero x \<and> is_zero y)))"

subsection \<open>The Math object\<close>

text \<open>
  \<open>Math.round\<close> rounds to the nearest integer, a half towards \<open>+\<infinity>\<close>, and
  keeps the sign of a negative argument that rounds to zero.
\<close>

fun math_round :: "number \<Rightarrow> number" where
  "math_round (Fin r) = (if r < 0 \<and> - 1 / 2 \<le> r then NegZero else Fin (of_int \<lfloor>r + 1 / 2\<rfloor>))"
| "math_round x = x"

fun math_ceil :: "number \<Rightarrow> number" where
  "math_ceil (Fin r) = (if r < 0 \<and> - 1 < r then NegZero else Fin (of_int \<lceil>r\<rceil>))"
| "math_ceil x = x"

fun math_floor :: "number \<Rightarrow> number" where
  "math_floor (Fin r) = Fin (of_int \<lfloor>r\<rfloor>)"
| "math_floor x = x"

fun math_abs :: "number \<Rightarrow> number" where
  "math_abs NaN = NaN"
| "math_abs PosInf = PosInf"
| "math_abs NegInf = PosInf"
| "math_abs NegZero = Fin 0"
| "math_abs (Fin r) = Fin \<bar>r\<bar>"

fun math_max :: "nat \<Rightarrow> nat \<Rightarrow> nat" where
  "math_max a b = (if a < b then b else a)"

text \<open>
  ECMAScript leaves the results of \<open>Math.pow\<close> and \<open>Math.sqrt\<close> on ordinary
  arguments to the implementation ("implementation-approximated"). The model
  takes these approximations as a parameter and fixes only what the standard
  fixes, and that a power with an integer exponent whose exact value is a
  double is returned exactly.
\<close>

record runtime =
  approx_pow :: "rat \<Rightarrow> rat \<Rightarrow> number"
  approx_sqrt :: "rat \<Rightarrow> number"

definition is_integral :: "rat \<Rightarrow> bool" where
  "is_integral r = (of_int \<lfloor>r\<rfloor> = r)"

fun is_odd_integer :: "number \<Rightarrow> bool" where
  "is_odd_integer (Fin r) = (is_integral r \<and> odd \<lfloor>r\<rfloor>)"
| "is_odd_integer _ = False"

definition math_pow :: "runtime \<Rightarrow> number \<Rightarrow> number \<Rightarrow> number" where
  "math_pow rt base exponent =
     (if exponent = NaN then NaN
      else if is_zero exponent then Fin 1
      else if base = NaN then NaN
      else if base = PosInf then (if num_lt (Fin 0) exponent then PosInf else Fin 0)
      else if base = NegInf then
        (if num_lt (Fin 0) exponent
         then (if is_odd_integer exponent then NegInf else PosInf)
         else (if is_odd_integer exponent then NegZero else Fin 0))
      else if base = Fin 0 then (if num_lt (Fin 0) exponent then Fin 0 else PosInf)
      else if base = NegZero then
        (if num_lt (Fin 0) exponent
         then (if is_odd_integer exponent then NegZero else Fin 0)
         else (if is_odd_integer exponent then NegInf else PosInf))
      else if exponent = PosInf then
        (if 1 < \<bar>real_val base\<bar> then PosInf else if \<bar>real_val base\<bar> = 1 then NaN else Fin 0)
      else if exponent = NegInf then
        (if 1 < \<bar>real_val base\<bar> then Fin 0 else if \<bar>real_val base\<bar> = 1 then NaN else PosInf)
      else let b = real_val base; e = real_val exponent in
        if b < 0 \<and> \<not> is_integral e then NaN
        else if is_integral e \<and> fround (ipow b \<lfloor>e\<rfloor>) = Fin (ipow b \<lfloor>e\<rfloor>)
        then Fin (ipow b \<lfloor>e\<rfloor>)
        else approx_pow rt b e)"

fun math_sqrt :: "runtime \<Rightarrow> number \<Rightarrow> number" where
  "math_sqrt rt NaN = NaN"
| "math_sqrt rt PosInf = PosInf"
| "math_sqrt rt NegInf = NaN"
| "math_sqrt rt NegZero = NegZero"
| "math_sqrt rt (Fin r) = (if r < 0 then NaN else if r = 0 then Fin 0 else approx_sqrt rt r)"

subsection \<open>Numbers to strings\<close>

definition digit_char :: "int \<Rightarrow> char" where
  "digit_char d = ''0123456789'' ! nat (d mod 10)"

text \<open>The decimal digits of a non-negative integer.\<close>

function digits_int :: "int \<Rightarrow> string" where
  "digits_int n = (if n < 10 then [digit_char n] else digits_int (n div 10) @ [digit_char (n mod 10)])"
  by pat_completeness auto
termination
  by (relation "measure nat") auto

declare digits_int.simps [simp del]

text \<open>\<open>ilog10 r\<close> is the integer \<open>e\<close> with \<open>10^e \<le> r < 10^(e+1)\<close>, for positive \<open>r\<close>.\<close>

definition ilog10 :: "rat \<Rightarrow> int" where
  "ilog10 r = (let (p, q) = quotient_of r;
                   d = int (length (digits_int p)) - int (length (digits_int q))
               in if ipow 10 d \<le> r then d else d - 1)"

text \<open>
  \<open>Number::toString\<close> picks the least number \<open>k\<close> of digits for which some
  \<open>s\<close> with \<open>k\<close> digits and some \<open>n\<close> give \<open>s * 10^(n-k)\<close> rounding back to the
  number, and among the candidates the one closest to it. \<open>find_digits v n0 k\<close>
  tries \<open>k\<close>, \<open>k + 1\<close>, ... with \<open>10^(n0-1) \<le> v < 10^n0\<close>; the two candidates for
  \<open>k\<close> digits are the neighbours of \<open>v / 10^(n0-k)\<close>. Seventeen digits identify
  every double.
\<close>

function find_digits :: "rat \<Rightarrow> int \<Rightarrow> nat \<Rightarrow> int \<times> nat" where
  "find_digits v n0 k =
     (let sc = ipow 10 (n0 - int k);
          t = v / sc;
          lo = \<lfloor>t\<rfloor>;
          hi = lo + 1;
          oklo = (fround (of_int lo * sc) = Fin v);
          okhi = (fround (of_int hi * sc) = Fin v);
          dlo = t - of_int lo;
          dhi = of_int hi - t
      in if oklo \<and> okhi then
           (if dlo < dhi then (lo, k) else if dhi < dlo then (hi, k)
            else if even lo then (lo, k) else (hi, k))
         else if oklo then (lo, k)
         else if okhi then (hi, k)
         else if 17 \<le> k then (lo, k)
         else find_digits v n0 (k + 1))"
  by pat_completeness auto
termination
  by (relation "measure (\<lambda>(v, n0, k). 17 - k)") auto

declare find_digits.simps [simp del]

definition strip_zeros :: "string \<Rightarrow> string" where
  "strip_zeros ds = rev (dropWhile (\<lambda>c. c = CHR ''0'') (rev ds))"

definition zeros :: "nat \<Rightarrow> string" where
  "zeros n = replicate n (CHR ''0'')"

text \<open>The decimal rendering of a positive finite Number.\<close>

definition pos_to_string :: "rat \<Rightarrow> string" where
  "pos_to_string v =
     (let n0 = ilog10 v + 1;
          (s, k0) = find_digits v n0 1;
          ds0 = digits_int s;
          ds = strip_zeros ds0;
          k = int (length ds);
          n = n0 + int (length ds0) - int k0
      in if k \<le> n \<and> n \<le> 21 then ds @ zeros (nat (n - k))
         else if 0 < n \<and> n \<le> 21 then take (nat n) ds @ ''.'' @ drop (nat n) ds
         else if - 6 < n \<and> n \<le> 0 then ''0.'' @ zeros (nat (- n)) @ ds
         else let e = n - 1;
                  es = (if e < 0 then ''-'' else ''+'') @ digits_int \<bar>e\<bar>
              in if k = 1 then ds @ ''e'' @ es
                 else [hd ds] @ ''.'' @ tl ds @ ''e'' @ es)"

fun num_to_string :: "number \<Rightarrow> string" where
  "num_to_string NaN = ''NaN''"
| "num_to_string PosInf = ''Infinity''"
| "num_to_string NegInf = ''-Infinity''"
| "num_to_string NegZero = ''0''"
| "num_to_string (Fin r) =
     (if r = 0 then ''0'' else if r < 0 then ''-'' @ pos_to_string (- r) else pos_to_string r)"

text \<open>Errors thrown by the library, and by the built-ins it calls.\<close>

datatype error =
    DivisionByZero
  | UnsupportedOperator string
  | NegativeOperand
  | RangeError
  | TypeError

text \<open>
  \<open>Number.prototype.toFixed\<close>: the digit count is truncated to an integer and
  must lie in \<open>0..100\<close>; the digits are those of the integer \<open>n\<close> for which
  \<open>n / 10^f\<close> is closest to the number, the larger \<open>n\<close> on a tie.
\<close>

definition to_fixed :: "number \<Rightarrow> number \<Rightarrow> error + string" where
  "to_fixed x fractionDigits =
     (if is_inf fractionDigits then Inl RangeError
      else let fd = real_val fractionDigits;
               f = (if 0 \<le> fd then \<lfloor>fd\<rfloor> else \<lceil>fd\<rceil>)
      in if f < 0 \<or> 100 < f then Inl RangeError
         else if x = NaN \<or> is_inf x then Inr (num_to_string x)
         else let r = real_val x;
                  sg = (if r < 0 then ''-'' else []);
                  a = \<bar>r\<bar>
         in if 10 ^ 21 \<le> a then Inr (sg @ num_to_string (Fin a))
            else let n = \<lfloor>a * 10 ^ nat f + 1 / 2\<rfloor>;
                     m0 = digits_int n;
                     m = (if length m0 \<le> nat f then zeros (nat f + 1 - length m0) @ m0 else m0);
                     k = length m
                 in if f = 0 then Inr (sg @ m)
                    else Inr (sg @ take (k - nat f) m @ ''.'' @ drop (k - nat f) m))"

subsection \<open>String operations\<close>

text \<open>\<open>String.prototype.indexOf\<close> for a single character: \<open>-1\<close> when absent.\<close>

fun indexOf :: "string \<Rightarrow> char \<Rightarrow> int" where
  "indexOf [] c = - 1"
| "indexOf (x # xs) c = (if x = c then 0 else let i = indexOf xs c in if i = - 1 then - 1 else i + 1)"

text \<open>
  \<open>str.replace(/\.?0+$/, '')\<close> removes the leftmost match. The pattern matches
  at a position when the rest of the string is an optional dot followed by one
  or more zeros; the optional dot is tried first and then given up, which makes
  no difference to whether the position matches.
\<close>

definition all_zeros :: "string \<Rightarrow> bool" where
  "all_zeros cs = (cs \<noteq> [] \<and> list_all (\<lambda>c. c = CHR ''0'') cs)"

definition matches_here :: "string \<Rightarrow> bool" where
  "matches_here t = (case t of [] \<Rightarrow> False
     | c # cs \<Rightarrow> (c = CHR ''.'' \<and> all_zeros cs) \<or> all_zeros (c # cs))"

fun replace_dot_zeros :: "string \<Rightarrow> string" where
  "replace_dot_zeros [] = []"
| "replace_dot_zeros (c # cs) = (if matches_here (c # cs) then [] else c # replace_dot_zeros cs)"

section \<open>The precise arithmetic functions\<close>

text \<open>
  \<^verbatim>\<open>function getDecimalPlaces(num) {
    const str = num.toString();
    const decimalIndex = str.indexOf('.');
    return decimalIndex === -1 ? 0 : str.length - decimalIndex - 1; }\<close>
\<close>

definition getDecimalPlaces :: "number \<Rightarrow> nat" where
  "getDecimalPlaces num =
     (let str = num_to_string num;
          decimalIndex = indexOf str (CHR ''.'')
      in if decimalIndex = - 1 then 0 else nat (int (length str) - decimalIndex - 1))"

text \<open>A count of decimal places as a Number.\<close>

definition of_count :: "nat \<Rightarrow> number" where
  "of_count n = Fin (of_nat n)"

text \<open>
  \<^verbatim>\<open>multiplier = Math.pow(10, Math.max(decimalPlacesA, decimalPlacesB));
  return Math.round((a * multiplier + b * multiplier)) / multiplier;\<close>
\<close>

definition preciseAdd :: "runtime \<Rightarrow> number \<Rightarrow> number \<Rightarrow> number" where
  "preciseAdd rt a b =
     (let decimalPlacesA = getDecimalPlaces a;
          decimalPlacesB = getDecimalPlaces b;
          maxDecimalPlaces = math_max decimalPlacesA decimalPlacesB;
          multiplier = math_pow rt (Fin 10) (of_count maxDecimalPlaces)
      in num_div (math_round (num_add (num_mul a multiplier) (num_mul b multiplier))) multiplier)"

definition preciseSubtract :: "runtime \<Rightarrow> number \<Rightarrow> number \<Rightarrow> number" where
  "preciseSubtract rt a b =
     (let decimalPlacesA = getDecimalPlaces a;
          decimalPlacesB = getDecimalPlaces b;
          maxDecimalPlaces = math_max decimalPlacesA decimalPlacesB;
          multiplier = math_pow rt (Fin 10) (of_count maxDecimalPlaces)
      in num_div (math_round (num_sub (num_mul a multiplier) (num_mul b multiplier))) multiplier)"

text \<open>
  \<^verbatim>\<open>multiplier = Math.pow(10, decimalPlacesA + decimalPlacesB);
  return Math.round(a * multiplier * b) / multiplier;\<close>
\<close>

definition preciseMultiply :: "runtime \<Rightarrow> number \<Rightarrow> number \<Rightarrow> number" where
  "preciseMultiply rt a b =
     (let decimalPlacesA = getDecimalPlaces a;
          decimalPlacesB = getDecimalPlaces b;
          multiplier = math_pow rt (Fin 10) (of_count (decimalPlacesA + decimalPlacesB))
      in num_div (math_round (num_mul (num_mul a multiplier) b)) multiplier)"

text \<open>An omitted argument takes the default of its parameter.\<close>

definition or_default :: "'a option \<Rightarrow> 'a \<Rightarrow> 'a" where
  "or_default arg d = (case arg of None \<Rightarrow> d | Some v \<Rightarrow> v)"

text \<open>
  \<^verbatim>\<open>function preciseDivide(a, b, precision = 10) {
    if (b === 0) { throw new Error(...); }
    const multiplier = Math.pow(10, precision);
    return Math.round((a / b) * multiplier) / multiplier; }\<close>
\<close>

definition preciseDivide :: "runtime \<Rightarrow> number \<Rightarrow> number \<Rightarrow> number option \<Rightarrow> error + number" where
  "preciseDivide rt a b precision_arg =
     (let precision = or_default precision_arg (Fin 10)
      in if strict_eq b (Fin 0) then Inl DivisionByZero
         else let multiplier = math_pow rt (Fin 10) precision
              in Inr (num_div (math_round (num_mul (num_div a b) multiplier)) multiplier))"

text \<open>The \<open>switch\<close> over the operator string, with its \<open>default\<close> branch.\<close>

definition preciseCalculate ::
  "runtime \<Rightarrow> number \<Rightarrow> string \<Rightarrow> number \<Rightarrow> number option \<Rightarrow> error + number" where
  "preciseCalculate rt a operator b precision_arg =
     (let precision = or_default precision_arg (Fin 10)
      in if operator = ''+'' then Inr (preciseAdd rt a b)
         else if operator = ''-'' then Inr (preciseSubtract rt a b)
         else if operator = ''*'' then Inr (preciseMultiply rt a b)
         else if operator = ''/'' then preciseDivide rt a b (Some precision)
         else Inl (UnsupportedOperator operator))"

text \<open>
  \<^verbatim>\<open>function formatNumber(num, decimals = 2, removeTrailingZeros = false) {
    const formatted = num.toFixed(decimals);
    if (removeTrailingZeros) { return formatted.replace(/\.?0+$/, ''); }
    return formatted; }\<close>
\<close>

definition formatNumber :: "number \<Rightarrow> number option \<Rightarrow> bool option \<Rightarrow> error + string" where
  "formatNumber num decimals_arg removeTrailingZeros_arg =
     (let decimals = or_default decimals_arg (Fin 2);
          removeTrailingZeros = or_default removeTrailingZeros_arg False
      in case to_fixed num decimals of
           Inl e \<Rightarrow> Inl e
         | Inr formatted \<Rightarrow>
             if removeTrailingZeros then Inr (replace_dot_zeros formatted) else Inr formatted)"

section \<open>The Calculator class\<close>

text \<open>
  Objects live in a store and are named by references; a method receives the
  store and \<open>this\<close>, and gives back the store together with what it returns or
  throws. A call on something that is no object throws a \<open>TypeError\<close>.
\<close>

record Calculator =
  cvalue :: number

type_synonym ref = nat
type_synonym store = "Calculator list"
type_synonym 'a outcome = "store \<times> (error + 'a)"

definition deref :: "store \<Rightarrow> ref \<Rightarrow> Calculator option" where
  "deref s r = (if r < length s then Some (s ! r) else None)"

text \<open>\<open>this.value = v; return this;\<close>\<close>

definition assign_value :: "store \<Rightarrow> ref \<Rightarrow> Calculator \<Rightarrow> number \<Rightarrow> ref outcome" where
  "assign_value s this c v = (s[this := c\<lparr>cvalue := v\<rparr>], Inr this)"

definition Calculator_new :: "store \<Rightarrow> number option \<Rightarrow> ref outcome" where
  "Calculator_new s initialValue = (s @ [\<lparr>cvalue = or_default initialValue (Fin 0)\<rparr>], Inr (length s))"

definition calculate :: "store \<Rightarrow> number option \<Rightarrow> ref outcome" where
  "calculate s initialValue = Calculator_new s (Some (or_default initialValue (Fin 0)))"

definition Calculator_add :: "runtime \<Rightarrow> store \<Rightarrow> ref \<Rightarrow> number \<Rightarrow> ref outcome" where
  "Calculator_add rt s this num = (case deref s this of None \<Rightarrow> (s, Inl TypeError)
     | Some c \<Rightarrow> assign_value s this c (preciseAdd rt (cvalue c) num))"

definition Calculator_subtract :: "runtime \<Rightarrow> store \<Rightarrow> ref \<Rightarrow> number \<Rightarrow> ref outcome" where
  "Calculator_subtract rt s this num = (case deref s this of None \<Rightarrow> (s, Inl TypeError)
     | Some c \<Rightarrow> assign_value s this c (preciseSubtract rt (cvalue c) num))"

definition Calculator_multiply :: "runtime \<Rightarrow> store \<Rightarrow> ref \<Rightarrow> number \<Rightarrow> ref outcome" where
  "Calculator_multiply rt s this num = (case deref s this of None \<Rightarrow> (s, Inl TypeError)
     | Some c \<Rightarrow> assign_value s this c (preciseMultiply rt (cvalue c) num))"

text \<open>\<open>preciseDivide\<close> throws before the assignment to \<open>this.value\<close> takes place.\<close>

definition Calculator_divide ::
  "runtime \<Rightarrow> store \<Rightarrow> ref \<Rightarrow> number \<Rightarrow> number option \<Rightarrow> ref outcome" where
  "Calculator_divide rt s this num precision_arg = (case deref s this of None \<Rightarrow> (s, Inl TypeError)
     | Some c \<Rightarrow>
        (case preciseDivide rt (cvalue c) num (Some (or_default precision_arg (Fin 10))) of
           Inl e \<Rightarrow> (s, Inl e)
         | Inr v \<Rightarrow> assign_value s this c v))"

definition Calculator_power :: "runtime \<Rightarrow> store \<Rightarrow> ref \<Rightarrow> number \<Rightarrow> ref outcome" where
  "Calculator_power rt s this exponent = (case deref s this of None \<Rightarrow> (s, Inl TypeError)
     | Some c \<Rightarrow> assign_value s this c (math_pow rt (cvalue c) exponent))"

definition Calculator_sqrt :: "runtime \<Rightarrow> store \<Rightarrow> ref \<Rightarrow> ref outcome" where
  "Calculator_sqrt rt s this = (case deref s this of None \<Rightarrow> (s, Inl TypeError)
     | Some c \<Rightarrow>
        if num_lt (cvalue c) (Fin 0) then (s, Inl NegativeOperand)
        else assign_value s this c (math_sqrt rt (cvalue c)))"

definition Calculator_abs :: "store \<Rightarrow> ref \<Rightarrow> ref outcome" where
  "Calculator_abs s this = (case deref s this of None \<Rightarrow> (s, Inl TypeError)
     | Some c \<Rightarrow> assign_value s this c (math_abs (cvalue c)))"

definition Calculator_round :: "runtime \<Rightarrow> store \<Rightarrow> ref \<Rightarrow> number option \<Rightarrow> ref outcome" where
  "Calculator_round rt s this decimals_arg = (case deref s this of None \<Rightarrow> (s, Inl TypeError)
     | Some c \<Rightarrow>
        let multiplier = math_pow rt (Fin 10) (or_default decimals_arg (Fin 0))
        in assign_value s this c (num_div (math_round (num_mul (cvalue c) multiplier)) multiplier))"

definition Calculator_ceil :: "runtime \<Rightarrow> store \<Rightarrow> ref \<Rightarrow> number option \<Rightarrow> ref outcome" where
  "Calculator_ceil rt s this decimals_arg = (case deref s this of None \<Rightarrow> (s, Inl TypeError)
     | Some c \<Rightarrow>
        let multiplier = math_pow rt (Fin 10) (or_default decimals_arg (Fin 0))
        in assign_value s this c (num_div (math_ceil (num_mul (cvalue c) multiplier)) multiplier))"

definition Calculator_floor :: "runtime \<Rightarrow> store \<Rightarrow> ref \<Rightarrow> number option \<Rightarrow> ref outcome" where
  "Calculator_floor rt s this decimals_arg = (case deref s this of None \<Rightarrow> (s, Inl TypeError)
     | Some c \<Rightarrow>
        let multiplier = math_pow rt (Fin 10) (or_default decimals_arg (Fin 0))
        in assign_value s this c (num_div (math_floor (num_mul (cvalue c) multiplier)) multiplier))"

definition Calculator_result :: "store \<Rightarrow> ref \<Rightarrow> error + number" where
  "Calculator_result s this = (case deref s this of None \<Rightarrow> Inl TypeError | Some c \<Rightarrow> Inr (cvalue c))"

definition Calculator_format :: "store \<Rightarrow> ref \<Rightarrow> number option \<Rightarrow> bool option \<Rightarrow> error + string" where
  "Calculator_format s this decimals_arg removeTrailingZeros_arg =
     (case deref s this of None \<Rightarrow> Inl TypeError
      | Some c \<Rightarrow> formatNumber (cvalue c) (Some (or_default decimals_arg (Fin 2)))
                    (Some (or_default removeTrailingZeros_arg False)))"

subsection \<open>Chains of calls\<close>

text \<open>
  A chain \<open>x.m1(..).m2(..)...\<close> calls each method on what the one before it
  returned, and stops at the first call that throws.
\<close>

datatype method_call =
    Add number
  | Subtract number
  | Multiply number
  | Divide number "number option"
  | Power number
  | Sqrt
  | Abs
  | Round "number option"
  | Ceil "number option"
  | Floor "number option"

fun invoke :: "runtime \<Rightarrow> store \<Rightarrow> ref \<Rightarrow> method_call \<Rightarrow> ref outcome" where
  "invoke rt s this (Add num) = Calculator_add rt s this num"
| "invoke rt s this (Subtract num) = Calculator_subtract rt s this num"
| "invoke rt s this (Multiply num) = Calculator_multiply rt s this num"
| "invoke rt s this (Divide num precision) = Calculator_divide rt s this num precision"
| "invoke rt s this (Power exponent) = Calculator_power rt s this exponent"
| "invoke rt s this Sqrt = Calculator_sqrt rt s this"
| "invoke rt s this Abs = Calculator_abs s this"
| "invoke rt s this (Round decimals) = Calculator_round rt s this decimals"
| "invoke rt s this (Ceil decimals) = Calculator_ceil rt s this decimals"
| "invoke rt s this (Floor decimals) = Calculator_floor rt s this decimals"

fun chain :: "runtime \<Rightarrow> store \<Rightarrow> ref \<Rightarrow> method_call list \<Rightarrow> ref outcome" where
  "chain rt s this [] = (s, Inr this)"
| "chain rt s this (m # ms) =
     (case invoke rt s this m of
        (s', Inl e) \<Rightarrow> (s', Inl e)
      | (s', Inr r) \<Rightarrow> chain rt s' r ms)"

text \<open>The expression \<open>new Calculator(init).m1(..)...mk(..).result()\<close>.\<close>

definition run_calculator :: "runtime \<Rightarrow> number option \<Rightarrow> method_call list \<Rightarrow> error + number" where
  "run_calculator rt init ms =
     (case Calculator_new [] init of
        (s0, Inl e) \<Rightarrow> Inl e
      | (s0, Inr c) \<Rightarrow>
          (case chain rt s0 c ms of
             (s1, Inl e) \<Rightarrow> Inl e
           | (s1, Inr r) \<Rightarrow> Calculator_result s1 r))"

text \<open>
  A runtime for closed computations. Its approximations are consulted only for
  powers that are not exact and for square roots of positive numbers.
\<close>

definition plain_runtime :: runtime where
  "plain_runtime = \<lparr>approx_pow = (\<lambda>b e. NaN), approx_sqrt = (\<lambda>r. NaN)\<rparr>"



section \<open>The specification's reading of the operations\<close>

text \<open>
  The number of decimal places as the specification words it: the number of
  digits after the decimal point of the canonical decimal string, and 0 when
  the string has no point.
\<close>

definition decimal_places :: "number \<Rightarrow> nat" where
  "decimal_places num = length (drop 1 (dropWhile (\<lambda>c. c \<noteq> CHR ''.'') (num_to_string num)))"



text \<open>
  Rounding to \<open>decimals\<close> places the way the library does it throughout:
  \<open>f(v * 10^decimals) / 10^decimals\<close>, with \<open>f\<close> one of \<open>Math.round\<close>,
  \<open>Math.ceil\<close> and \<open>Math.floor\<close>.
\<close>

definition scaled :: "runtime \<Rightarrow> (number \<Rightarrow> number) \<Rightarrow> number \<Rightarrow> number \<Rightarrow> number" where
  "scaled rt f acc decimals =
     num_div (f (num_mul acc (math_pow rt (Fin 10) decimals))) (math_pow rt (Fin 10) decimals)"

text \<open>
  The identity \<open>preciseAdd(a, b) + preciseSubtract(a, b) == 2 * a\<close>, both sides
  rounded to the operands' larger count of decimal places \<open>p\<close> (that is,
  \<open>Math.round(v * 10^p) / 10^p\<close>) and compared with \<open>===\<close>.
\<close>

definition add_sub_identity :: "runtime \<Rightarrow> number \<Rightarrow> number \<Rightarrow> bool" where
  "add_sub_identity rt a b =
     (let p = max (decimal_places a) (decimal_places b);
          lhs = num_add (preciseAdd rt a b) (preciseSubtract rt a b);
          rhs = num_mul (Fin 2) a
      in strict_eq (scaled rt math_round lhs (of_count p)) (scaled rt math_round rhs (of_count p)))"

text \<open>
  The number of significant decimal digits of a Number: the digits of its
  canonical decimal string, leading and trailing zeros not counted.
\<close>

definition significant_digits :: "number \<Rightarrow> nat" where
  "significant_digits x =
     (case x of
        Fin r \<Rightarrow>
          if r = 0 then 1
          else let (s, k0) = find_digits \<bar>r\<bar> (ilog10 \<bar>r\<bar> + 1) 1
               in length (strip_zeros (digits_int s))
      | NegZero \<Rightarrow> 1
      | _ \<Rightarrow> 0)"




text \<open>
  \<open>sqrt()\<close> fails with a NegativeOperand error if the accumulator is negative,
  that is, below zero; otherwise the accumulator becomes the host's square root
  of it.
\<close>

definition is_negative :: "number \<Rightarrow> bool" where
  "is_negative x = (x = NegInf \<or> (num_is_finite x \<and> real_val x < 0))"












section \<open>Properties\<close>

subsection \<open>Auxiliary facts\<close>

lemma strict_eq_zero: "strict_eq b (Fin 0) = (b = Fin 0 \<or> b = NegZero)"
  by (cases b) (auto simp: strict_eq_def)

text \<open>\<open>Math.pow(10, p)\<close> is exactly \<open>10^p\<close> up to \<open>p = 22\<close>.\<close>

lemma pow10_table: "\<forall>p\<in>set [0..<23]. math_pow rt (Fin 10) (of_count p) = Fin (10 ^ p)"
  by code_simp

lemma pow10_exact: "p \<le> 22 \<Longrightarrow> math_pow rt (Fin 10) (of_count p) = Fin (10 ^ p)"
  using pow10_table [of rt] by auto

lemma all_zeros_no_dot: "CHR ''.'' \<notin> set s \<Longrightarrow> matches_here s = all_zeros s"
  by (cases s) (auto simp: matches_here_def all_zeros_def)

lemma all_zeros_dropWhile: "all_zeros s \<Longrightarrow> dropWhile (\<lambda>c. c = CHR ''0'') (rev s) = []"
  by (auto simp: all_zeros_def list_all_iff)

lemma replace_no_dot: "CHR ''.'' \<notin> set s \<Longrightarrow> replace_dot_zeros s = strip_zeros s"
proof (induction s)
  case Nil
  then show ?case by (simp add: strip_zeros_def)
next
  case (Cons c cs)
  show ?case
  proof (cases "all_zeros (c # cs)")
    case True
    then show ?thesis
      using Cons.prems all_zeros_no_dot [of "c # cs"] all_zeros_dropWhile [of "c # cs"]
      by (simp add: strip_zeros_def)
  next
    case False
    then have nm: "\<not> matches_here (c # cs)"
      using Cons.prems all_zeros_no_dot [of "c # cs"] by simp
    have "dropWhile (\<lambda>c. c = CHR ''0'') (rev cs @ [c]) = dropWhile (\<lambda>c. c = CHR ''0'') (rev cs) @ [c]"
      using False by (auto simp: dropWhile_append all_zeros_def list_all_iff)
    then show ?thesis
      using nm Cons by (simp add: strip_zeros_def)
  qed
qed

subsection \<open>Worked values of the precise functions\<close>

text \<open>
  C1. \<open>preciseAdd(0.1, 0.2)\<close> is exactly the double \<open>0.3\<close>, which is not the
  double \<open>0.30000000000000004\<close> that the plain sum \<open>0.1 + 0.2\<close> gives, and
  \<open>preciseMultiply(0.1, 0.2)\<close> is exactly the double \<open>0.02\<close>.
\<close>

theorem preciseAdd_preciseMultiply_tenths:
  "preciseAdd rt (num_lit (1 / 10)) (num_lit (2 / 10)) = num_lit (3 / 10)
   \<and> num_add (num_lit (1 / 10)) (num_lit (2 / 10)) = num_lit (30000000000000004 / 10 ^ 17)
   \<and> num_lit (3 / 10) \<noteq> num_lit (30000000000000004 / 10 ^ 17)
   \<and> preciseMultiply rt (num_lit (1 / 10)) (num_lit (2 / 10)) = num_lit (2 / 100)"
  by code_simp

subsection \<open>Division by zero\<close>

text \<open>
  C3. \<open>preciseDivide(a, b, precision)\<close> throws the division-by-zero error exactly
  when \<open>b\<close> is zero (\<open>b === 0\<close> holds for \<open>+0\<close> and \<open>-0\<close>), whatever the dividend
  and the precision are; for every other \<open>b\<close> it returns a value, and it throws
  no other error.
\<close>

theorem preciseDivide_throws_iff_zero:
  "(preciseDivide rt a b precision = Inl DivisionByZero) = (b = Fin 0 \<or> b = NegZero)
   \<and> ((\<exists>v. preciseDivide rt a b precision = Inr v) = (\<not> (b = Fin 0 \<or> b = NegZero)))
   \<and> (\<forall>e. preciseDivide rt a b precision = Inl e \<longrightarrow> e = DivisionByZero)"
  by (auto simp: preciseDivide_def Let_def strict_eq_zero)

theorem preciseDivide_throws_iff_zero_witness:
  "preciseDivide plain_runtime (num_lit 1) (Fin 0) None = Inl DivisionByZero
   \<and> preciseDivide plain_runtime (num_lit 1) NegZero (Some (num_lit 3)) = Inl DivisionByZero
   \<and> (\<exists>v. preciseDivide plain_runtime (num_lit 1) (num_lit 3) None = Inr v)"
proof -
  have nz: "\<not> (num_lit 3 = Fin 0 \<or> num_lit 3 = NegZero)"
    by code_simp
  show ?thesis
    using nz preciseDivide_throws_iff_zero [of plain_runtime "num_lit 1" "Fin 0" None]
      preciseDivide_throws_iff_zero [of plain_runtime "num_lit 1" NegZero "Some (num_lit 3)"]
      preciseDivide_throws_iff_zero [of plain_runtime "num_lit 1" "num_lit 3" None]
    by simp
qed

subsection \<open>The dispatcher\<close>

text \<open>
  C7. For the operators \<open>+\<close>, \<open>-\<close>, \<open>*\<close> and \<open>/\<close>, \<open>preciseCalculate\<close> returns
  what \<open>preciseAdd\<close>, \<open>preciseSubtract\<close>, \<open>preciseMultiply\<close> and \<open>preciseDivide\<close>
  return; the precision reaches the division only; any other operator string
  throws the unsupported-operator error.
\<close>

theorem preciseCalculate_dispatch:
  "preciseCalculate rt a ''+'' b precision = Inr (preciseAdd rt a b)
   \<and> preciseCalculate rt a ''-'' b precision = Inr (preciseSubtract rt a b)
   \<and> preciseCalculate rt a ''*'' b precision = Inr (preciseMultiply rt a b)
   \<and> preciseCalculate rt a ''/'' b precision = preciseDivide rt a b precision
   \<and> (operator \<notin> {''+'', ''-'', ''*'', ''/''} \<longrightarrow>
        preciseCalculate rt a operator b precision = Inl (UnsupportedOperator operator))"
  by (cases precision) (simp_all add: preciseCalculate_def preciseDivide_def or_default_def Let_def)

theorem preciseCalculate_dispatch_witness:
  "''%'' \<notin> {''+'', ''-'', ''*'', ''/''}
   \<and> preciseCalculate plain_runtime (num_lit 7) ''%'' (num_lit 2) None = Inl (UnsupportedOperator ''%'')"
  using preciseCalculate_dispatch [of plain_runtime "num_lit 7" "num_lit 2" None "''%''"] by simp

subsection \<open>Formatting\<close>

text \<open>
  C8. \<open>formatNumber(3.1, 2, true)\<close> is \<open>"3.1"\<close>, \<open>formatNumber(3.0, 2, true)\<close> is
  \<open>"3"\<close>, and \<open>formatNumber(3.14159, 4)\<close> is \<open>"3.1416"\<close>.
\<close>

theorem formatNumber_worked_values:
  "formatNumber (num_lit (31 / 10)) (Some (num_lit 2)) (Some True) = Inr ''3.1''
   \<and> formatNumber (num_lit 3) (Some (num_lit 2)) (Some True) = Inr ''3''
   \<and> formatNumber (num_lit (314159 / 100000)) (Some (num_lit 4)) None = Inr ''3.1416''"
  by code_simp

text \<open>
  C10. With \<open>removeTrailingZeros\<close> set, a fixed-decimal rendering that contains
  no decimal point loses the trailing zeros of its integer part:
  \<open>formatNumber(100, 0, true)\<close> and \<open>formatNumber(10, 0, true)\<close> are both \<open>"1"\<close>,
  where \<open>toFixed(0)\<close> gave \<open>"100"\<close> and \<open>"10"\<close>.
\<close>

theorem formatNumber_strips_integer_zeros:
  "(to_fixed num decimals = Inr formatted \<and> CHR ''.'' \<notin> set formatted \<longrightarrow>
      formatNumber num (Some decimals) (Some True) = Inr (strip_zeros formatted))
   \<and> formatNumber (num_lit 100) (Some (num_lit 0)) (Some True) = Inr ''1''
   \<and> formatNumber (num_lit 10) (Some (num_lit 0)) (Some True) = Inr ''1''
   \<and> to_fixed (num_lit 100) (num_lit 0) = Inr ''100''
   \<and> to_fixed (num_lit 10) (num_lit 0) = Inr ''10''"
proof -
  have ex: "formatNumber (num_lit 100) (Some (num_lit 0)) (Some True) = Inr ''1''
     \<and> formatNumber (num_lit 10) (Some (num_lit 0)) (Some True) = Inr ''1''
     \<and> to_fixed (num_lit 100) (num_lit 0) = Inr ''100''
     \<and> to_fixed (num_lit 10) (num_lit 0) = Inr ''10''"
    by code_simp
  have gen: "to_fixed num decimals = Inr formatted \<and> CHR ''.'' \<notin> set formatted \<longrightarrow>
     formatNumber num (Some decimals) (Some True) = Inr (strip_zeros formatted)"
    by (simp add: formatNumber_def or_default_def replace_no_dot)
  from gen ex show ?thesis by blast
qed

theorem formatNumber_strips_integer_zeros_witness:
  "to_fixed (num_lit 1200) (num_lit 0) = Inr ''1200''
   \<and> CHR ''.'' \<notin> set ''1200''
   \<and> formatNumber (num_lit 1200) (Some (num_lit 0)) (Some True) = Inr ''12''"
proof -
  have h: "to_fixed (num_lit 1200) (num_lit 0) = Inr ''1200''"
    by code_simp
  have z: "strip_zeros ''1200'' = ''12''"
    by (simp add: strip_zeros_def)
  show ?thesis
    using h z formatNumber_strips_integer_zeros [of "num_lit 1200" "num_lit 0" "''1200''"]
    by simp
qed

subsection \<open>Counting decimal places\<close>

lemma indexOf_absent: "c \<notin> set s \<Longrightarrow> indexOf s c = - 1"
  by (induction s) auto

lemma indexOf_present: "c \<in> set s \<Longrightarrow> indexOf s c = int (length (takeWhile (\<lambda>x. x \<noteq> c) s))"
  by (induction s) (auto simp: Let_def indexOf_absent)

lemma getDecimalPlaces_decimal_places: "getDecimalPlaces num = decimal_places num"
proof (cases "CHR ''.'' \<in> set (num_to_string num)")
  case True
  have "length (num_to_string num) =
      length (takeWhile (\<lambda>x. x \<noteq> CHR ''.'') (num_to_string num))
      + length (dropWhile (\<lambda>x. x \<noteq> CHR ''.'') (num_to_string num))"
    by (metis length_append takeWhile_dropWhile_id)
  then show ?thesis
    using True indexOf_present [OF True]
    by (simp add: getDecimalPlaces_def decimal_places_def Let_def)
next
  case False
  then have e: "dropWhile (\<lambda>x. x \<noteq> CHR ''.'') (num_to_string num) = []"
    by auto
  show ?thesis
    unfolding getDecimalPlaces_def decimal_places_def Let_def e
    using indexOf_absent [OF False] by simp
qed

lemma math_max_max: "math_max a b = max a b"
  by (simp add: max_def)

subsection \<open>Calculator chains\<close>




lemma invoke_fail_store: "invoke rt s this m = (s', Inl e) \<Longrightarrow> s' = s"
  by (cases m)
     (auto simp: Calculator_add_def Calculator_subtract_def Calculator_multiply_def
        Calculator_divide_def Calculator_power_def Calculator_sqrt_def Calculator_abs_def
        Calculator_round_def Calculator_ceil_def Calculator_floor_def assign_value_def
        Let_def split: sum.splits if_splits option.splits)

text \<open>
  C5, as the specification states it, fails: the chain
  \<open>new Calculator(10).add(5).multiply(2).subtract(7).divide(3).result()\<close> is not
  \<open>3.6666666667\<close>.
\<close>

theorem chain_example_not_3_67:
  "run_calculator plain_runtime (Some (num_lit 10))
      [Add (num_lit 5), Multiply (num_lit 2), Subtract (num_lit 7), Divide (num_lit 3) None]
   \<noteq> Inr (num_lit (36666666667 / 10 ^ 10))"
  by code_simp

text \<open>
  C5, amended: the chain computes \<open>((10 + 5) * 2 - 7) / 3 = 23 / 3\<close> and
  \<open>new Calculator(10).add(5).multiply(2).subtract(7).divide(3).result()\<close> is
  \<open>7.6666666667\<close> at the default precision of 10, while with \<open>divide(3)\<close> moved
  before \<open>multiply(2)\<close> the result is \<open>3\<close>, a different value.
\<close>

theorem chain_example_order:
  "run_calculator rt (Some (num_lit 10))
      [Add (num_lit 5), Multiply (num_lit 2), Subtract (num_lit 7), Divide (num_lit 3) None]
    = Inr (num_lit (76666666667 / 10 ^ 10))
   \<and> run_calculator rt (Some (num_lit 10))
      [Add (num_lit 5), Divide (num_lit 3) None, Multiply (num_lit 2), Subtract (num_lit 7)]
    = Inr (num_lit 3)
   \<and> num_lit 3 \<noteq> num_lit (76666666667 / 10 ^ 10)"
  by code_simp

text \<open>
  C6. On a Calculator object, \<open>sqrt()\<close> throws the negative-operand error
  exactly when the accumulator is below zero, and then leaves the store as it
  was; \<open>divide\<close> by zero throws and leaves the store as it was; and after any
  call that throws, \<open>result()\<close> is the value from before the call.
\<close>

theorem failing_call_keeps_accumulator:
  "deref s this = Some c \<longrightarrow>
     ((\<exists>s'. Calculator_sqrt rt s this = (s', Inl NegativeOperand)) = num_lt (cvalue c) (Fin 0))
     \<and> (num_lt (cvalue c) (Fin 0) \<longrightarrow> Calculator_sqrt rt s this = (s, Inl NegativeOperand))
     \<and> (num = Fin 0 \<or> num = NegZero \<longrightarrow>
          Calculator_divide rt s this num precision = (s, Inl DivisionByZero))
     \<and> (\<forall>m s' e. invoke rt s this m = (s', Inl e) \<longrightarrow>
          s' = s \<and> Calculator_result s' this = Inr (cvalue c))"
  by (auto simp: Calculator_sqrt_def Calculator_divide_def assign_value_def preciseDivide_def
      Let_def strict_eq_zero Calculator_result_def dest: invoke_fail_store)

theorem failing_call_keeps_accumulator_witness:
  "deref [\<lparr>cvalue = num_lit (- 4)\<rparr>] 0 = Some \<lparr>cvalue = num_lit (- 4)\<rparr>
   \<and> num_lt (num_lit (- 4)) (Fin 0)
   \<and> Calculator_sqrt plain_runtime [\<lparr>cvalue = num_lit (- 4)\<rparr>] 0
       = ([\<lparr>cvalue = num_lit (- 4)\<rparr>], Inl NegativeOperand)
   \<and> Calculator_divide plain_runtime [\<lparr>cvalue = num_lit (- 4)\<rparr>] 0 (Fin 0) None
       = ([\<lparr>cvalue = num_lit (- 4)\<rparr>], Inl DivisionByZero)
   \<and> invoke plain_runtime [\<lparr>cvalue = num_lit (- 4)\<rparr>] 0 Sqrt
       = ([\<lparr>cvalue = num_lit (- 4)\<rparr>], Inl NegativeOperand)
   \<and> Calculator_result [\<lparr>cvalue = num_lit (- 4)\<rparr>] 0 = Inr (num_lit (- 4))"
proof -
  have h: "deref [\<lparr>cvalue = num_lit (- 4)\<rparr>] 0 = Some \<lparr>cvalue = num_lit (- 4)\<rparr>
     \<and> num_lt (num_lit (- 4)) (Fin 0)"
    by code_simp
  show ?thesis
    using h failing_call_keeps_accumulator [of "[\<lparr>cvalue = num_lit (- 4)\<rparr>]" 0
        "\<lparr>cvalue = num_lit (- 4)\<rparr>" plain_runtime "Fin 0" None]
    by (simp add: Calculator_result_def)
qed

subsection \<open>Rounding error of the arithmetic\<close>

lemma ipow_powi: "ipow b e = b powi e"
  by (simp add: ipow_def power_int_def inverse_eq_divide power_one_over)

lemma bitlen_bounds:
  "0 < n \<Longrightarrow> 1 \<le> bitlen n \<and> 2 ^ nat (bitlen n - 1) \<le> n \<and> n < 2 ^ nat (bitlen n)"
proof (induction n rule: bitlen.induct)
  case (1 n)
  have b: "bitlen n = 1 + bitlen (n div 2)"
    using "1.prems" by (simp add: bitlen.simps [of n])
  show ?case
  proof (cases "n div 2 = 0")
    case True
    then have "n = 1" using "1.prems" by presburger
    then show ?thesis
      using b True by (simp add: bitlen.simps [of 0])
  next
    case False
    then have m: "0 < n div 2" using "1.prems" by presburger
    from "1.IH" m "1.prems"
    have ih: "1 \<le> bitlen (n div 2)" "2 ^ nat (bitlen (n div 2) - 1) \<le> n div 2"
      "n div 2 < 2 ^ nat (bitlen (n div 2))"
      by auto
    have e1: "nat (bitlen n - 1) = Suc (nat (bitlen (n div 2) - 1))"
      using b ih(1) by simp
    have e2: "nat (bitlen n) = Suc (nat (bitlen (n div 2)))"
      using b ih(1) by simp
    have "2 * 2 ^ nat (bitlen (n div 2) - 1) \<le> n"
      using ih(2) by presburger
    moreover have "n < 2 * 2 ^ nat (bitlen (n div 2))"
      using ih(3) by presburger
    ultimately show ?thesis
      using b ih(1) e1 e2 by simp
  qed
qed

lemma ilog2_le: "0 < r \<Longrightarrow> 2 powi (ilog2 r) \<le> r"
proof -
  assume r: "0 < r"
  obtain p q where pq: "quotient_of r = (p, q)"
    by (cases "quotient_of r")
  have q: "0 < q" using pq by (rule quotient_of_denom_pos)
  have rd: "r = of_int p / of_int q" using pq by (rule quotient_of_div)
  have p: "0 < p"
    using r q rd by (simp add: zero_less_divide_iff)
  define d where "d = bitlen p - bitlen q"
  have il: "ilog2 r = (if 2 powi d \<le> r then d else d - 1)"
    by (simp add: ilog2_def pq d_def ipow_powi Let_def)
  show ?thesis
  proof (cases "2 powi d \<le> r")
    case True
    then show ?thesis using il by simp
  next
    case False
    from bitlen_bounds [OF p] have bp: "1 \<le> bitlen p" "2 ^ nat (bitlen p - 1) \<le> p"
      by auto
    from bitlen_bounds [OF q] have bq: "1 \<le> bitlen q" "q < 2 ^ nat (bitlen q)"
      by auto
    have "(2::rat) powi (d - 1) = 2 powi (bitlen p - 1) / 2 powi (bitlen q)"
      by (simp add: d_def power_int_diff [symmetric] algebra_simps)
    also have "\<dots> = 2 ^ nat (bitlen p - 1) / 2 ^ nat (bitlen q)"
      using bp(1) bq(1) by (simp add: power_int_nonneg_exp)
    also have "\<dots> \<le> of_int p / of_int q"
    proof -
      have "(2::rat) ^ nat (bitlen p - 1) \<le> of_int p"
        using bp(2) by (metis of_int_le_iff of_int_numeral of_int_power)
      moreover have "(of_int q :: rat) \<le> 2 ^ nat (bitlen q)"
        using bq(2) by (metis less_imp_le of_int_le_iff of_int_numeral of_int_power)
      moreover have "(0::rat) < of_int q" using q by simp
      moreover have "(0::rat) \<le> 2 ^ nat (bitlen p - 1)" by simp
      moreover have "(0::rat) \<le> of_int p" using p by simp
      ultimately show ?thesis
        by (intro frac_le) auto
    qed
    finally show ?thesis
      using il False rd by simp
  qed
qed


lemma round_half_even_near: "\<bar>of_int (round_half_even t) - t\<bar> \<le> 1 / 2"
proof -
  have "of_int \<lfloor>t\<rfloor> \<le> t" "t < of_int \<lfloor>t\<rfloor> + 1"
    by linarith+
  then show ?thesis
    by (auto simp: round_half_even_def Let_def)
qed

lemma fround_error:
  assumes "\<bar>r\<bar> < 2 powi 1000"
  shows "fround r \<noteq> NaN \<and> \<not> is_inf (fround r)
    \<and> \<bar>real_val (fround r) - r\<bar> \<le> \<bar>r\<bar> / 2 ^ 53 + 1 / 2 ^ 1075"
proof (cases "r = 0")
  case True
  then show ?thesis by (simp add: fround_def)
next
  case False
  define a where "a = \<bar>r\<bar>"
  define e where "e = max (ilog2 a) (- 1022)"
  define q where "q = (2::rat) powi (e - 52)"
  define n where "n = round_half_even (a / q)"
  have a: "0 < a" using False by (simp add: a_def)
  have le: "2 powi (ilog2 a) \<le> a" using a by (rule ilog2_le)
  have "ilog2 a < 1000"
  proof (rule ccontr)
    assume "\<not> ilog2 a < 1000"
    then have "(2::rat) powi 1000 \<le> 2 powi (ilog2 a)"
      by (intro power_int_increasing) auto
    with le assms show False by (simp add: a_def)
  qed
  then have e: "e < 1000" "- 1022 \<le> e" by (auto simp: e_def)
  have q: "0 < q" by (simp add: q_def)
  have "\<bar>of_int n - a / q\<bar> \<le> 1 / 2"
    unfolding n_def by (rule round_half_even_near)
  then have "\<bar>of_int n - a / q\<bar> * q \<le> 1 / 2 * q"
    using q by (intro mult_right_mono) auto
  moreover have "\<bar>of_int n * q - a\<bar> = \<bar>of_int n - a / q\<bar> * q"
  proof -
    have "of_int n * q - a = (of_int n - a / q) * q"
      using q by (simp add: field_simps)
    then show ?thesis
      using q by (simp add: abs_mult)
  qed
  ultimately have nq: "\<bar>of_int n * q - a\<bar> \<le> q / 2"
    by simp
  have half: "q / 2 \<le> a / 2 ^ 53 + 1 / 2 ^ 1075"
  proof (cases "- 1022 \<le> ilog2 a")
    case True
    then have "e = ilog2 a" by (simp add: e_def)
    then have "q / 2 = 2 powi (ilog2 a) / 2 ^ 53"
      by (simp add: q_def power_int_diff)
    also have "\<dots> \<le> a / 2 ^ 53"
      using le by (simp add: divide_right_mono)
    finally show ?thesis by simp
  next
    case False
    then have "e = - 1022" by (simp add: e_def)
    then have "q / 2 = 1 / 2 ^ 1075"
      by (simp add: q_def power_int_minus_divide)
    then show ?thesis using a by simp
  qed
  have n0: "0 \<le> n"
  proof -
    have "0 \<le> a / q" using a q by simp
    then have "0 \<le> \<lfloor>a / q\<rfloor>" by simp
    then show ?thesis
      by (auto simp: n_def round_half_even_def Let_def)
  qed
  have fr: "fround r = (if n = 0 then (if 0 < r then Fin 0 else NegZero)
        else Fin (if 0 < r then of_int n * q else - (of_int n * q)))"
    using False e
    by (simp add: fround_def Let_def ipow_powi a_def [symmetric] e_def [symmetric]
        q_def [symmetric] n_def [symmetric])
  have val: "real_val (fround r) = (if 0 < r then of_int n * q else - (of_int n * q))"
    by (simp add: fr)
  have "\<bar>real_val (fround r) - r\<bar> = \<bar>of_int n * q - a\<bar>"
    using False by (cases "0 < r") (auto simp: val a_def)
  with nq half have "\<bar>real_val (fround r) - r\<bar> \<le> a / 2 ^ 53 + 1 / 2 ^ 1075"
    by linarith
  then show ?thesis
    by (simp add: fr a_def)
qed


lemma fround_finite: "\<bar>r\<bar> < 2 powi 1000 \<Longrightarrow> num_is_finite (fround r)"
  using fround_error [of r] by (cases "fround r") auto

lemma fround_not_NaN: "fround r \<noteq> NaN"
  by (simp add: fround_def Let_def)

lemma scaled_rounding:
  assumes F: "1 \<le> F" "F \<le> 10 ^ 22" and r: "\<bar>r * F\<bar> \<le> 2 ^ 48"
  shows "num_is_finite (fround r) \<and> \<bar>real_val (fround r) * F - r * F\<bar> \<le> 1 / 30"
proof -
  have F0: "0 < F" using F by simp
  have "\<bar>r\<bar> * 1 \<le> \<bar>r\<bar> * F"
    using F by (intro mult_left_mono) auto
  then have rr: "\<bar>r\<bar> \<le> 2 ^ 48"
    using r F0 by (simp add: abs_mult)
  have "(2::rat) ^ 48 < 2 powi 1000" by simp
  with rr have small: "\<bar>r\<bar> < 2 powi 1000" by linarith
  from fround_error [OF small]
  have er: "\<bar>real_val (fround r) - r\<bar> \<le> \<bar>r\<bar> / 2 ^ 53 + 1 / 2 ^ 1075"
    by simp
  have "\<bar>real_val (fround r) * F - r * F\<bar> = \<bar>real_val (fround r) - r\<bar> * F"
    using F0 by (simp add: abs_mult left_diff_distrib [symmetric])
  also have "\<dots> \<le> (\<bar>r\<bar> / 2 ^ 53 + 1 / 2 ^ 1075) * F"
    using er F0 by (intro mult_right_mono) auto
  also have "\<dots> = \<bar>r * F\<bar> / 2 ^ 53 + F / 2 ^ 1075"
    using F0 by (simp add: abs_mult field_simps)
  also have "\<dots> \<le> 2 ^ 48 / 2 ^ 53 + 10 ^ 22 / 2 ^ 1075"
    using r F by (intro add_mono divide_right_mono) auto
  also have "\<dots> \<le> 1 / 30"
    by simp
  finally show ?thesis
    using fround_finite [OF small] by simp
qed

lemma num_mul_val:
  "num_is_finite x \<Longrightarrow> num_is_finite y \<Longrightarrow>
     real_val (num_mul x y) = real_val (fround (real_val x * real_val y))
     \<and> num_is_finite (num_mul x y) = num_is_finite (fround (real_val x * real_val y))"
  by (cases x; cases y)
     (auto simp: num_mul_def signed_zero_def Let_def fround_def [of 0])

lemma num_add_val:
  "num_is_finite x \<Longrightarrow> num_is_finite y \<Longrightarrow>
     real_val (num_add x y) = real_val (fround (real_val x + real_val y))
     \<and> num_is_finite (num_add x y) = num_is_finite (fround (real_val x + real_val y))"
  by (cases x; cases y)
     (auto simp: num_add_def Let_def fround_def [of 0])

lemma num_neg_val:
  "num_is_finite x \<Longrightarrow> real_val (num_neg x) = - real_val x \<and> num_is_finite (num_neg x)"
  by (cases x) auto

lemma num_div_val:
  "num_is_finite x \<Longrightarrow> num_is_finite y \<Longrightarrow> real_val y \<noteq> 0 \<Longrightarrow>
     real_val (num_div x y) = real_val (fround (real_val x / real_val y))
     \<and> num_is_finite (num_div x y) = num_is_finite (fround (real_val x / real_val y))"
  by (cases x; cases y)
     (auto simp: num_div_def signed_zero_def Let_def fround_def [of 0])

lemma math_round_val:
  "num_is_finite x \<Longrightarrow>
     real_val (math_round x) = of_int \<lfloor>real_val x + 1 / 2\<rfloor> \<and> num_is_finite (math_round x)"
proof (cases x)
  case (Fin r)
  have "r < 0 \<Longrightarrow> - 1 / 2 \<le> r \<Longrightarrow> \<lfloor>r + 1 / 2\<rfloor> = 0"
    by (intro floor_unique) auto
  then show ?thesis using Fin by auto
next
  case NegZero
  have "\<lfloor>1 / 2 :: rat\<rfloor> = 0"
    by (intro floor_unique) auto
  then show ?thesis using NegZero by simp
qed auto

lemma floor_near: "\<bar>t - of_int N\<bar> < 1 / 2 \<Longrightarrow> \<lfloor>t + 1 / 2\<rfloor> = N"
  for t :: rat
proof -
  assume "\<bar>t - of_int N\<bar> < 1 / 2"
  then have "- (1 / 2) < t - of_int N" "t - of_int N < 1 / 2"
    by linarith+
  then show ?thesis
    by (intro floor_unique) linarith+
qed

lemma strict_eq_quotients:
  assumes "num_is_finite m1" "num_is_finite m2" "real_val m1 = real_val m2" "0 < F"
  shows "strict_eq (num_div m1 (Fin F)) (num_div m2 (Fin F))"
  using assms
  by (cases m1; cases m2)
     (auto simp: strict_eq_def num_div_def signed_zero_def Let_def fround_not_NaN)


lemma round_step:
  assumes "1 \<le> F" "F \<le> 10 ^ 22" "\<bar>r * F - T\<bar> \<le> E" "\<bar>T\<bar> + E \<le> 2 ^ 48"
  shows "num_is_finite (fround r) \<and> \<bar>real_val (fround r) * F - T\<bar> \<le> E + 1 / 30"
proof -
  have "\<bar>r * F\<bar> \<le> 2 ^ 48"
    using assms(3,4) by linarith
  from scaled_rounding [OF assms(1,2) this] assms(3) show ?thesis
    by linarith
qed

lemma mul_step:
  assumes "num_is_finite x" "num_is_finite y"
    and "1 \<le> F" "F \<le> 10 ^ 22" "\<bar>real_val x * real_val y * F - T\<bar> \<le> E" "\<bar>T\<bar> + E \<le> 2 ^ 48"
  shows "num_is_finite (num_mul x y) \<and> \<bar>real_val (num_mul x y) * F - T\<bar> \<le> E + 1 / 30"
  using num_mul_val [OF assms(1,2)] round_step [OF assms(3-6)] by simp

lemma add_step:
  assumes "num_is_finite x" "num_is_finite y"
    and "1 \<le> F" "F \<le> 10 ^ 22" "\<bar>(real_val x + real_val y) * F - T\<bar> \<le> E" "\<bar>T\<bar> + E \<le> 2 ^ 48"
  shows "num_is_finite (num_add x y) \<and> \<bar>real_val (num_add x y) * F - T\<bar> \<le> E + 1 / 30"
  using num_add_val [OF assms(1,2)] round_step [OF assms(3-6)] by simp

lemma sub_step:
  assumes "num_is_finite x" "num_is_finite y"
    and "1 \<le> F" "F \<le> 10 ^ 22" "\<bar>(real_val x - real_val y) * F - T\<bar> \<le> E" "\<bar>T\<bar> + E \<le> 2 ^ 48"
  shows "num_is_finite (num_sub x y) \<and> \<bar>real_val (num_sub x y) * F - T\<bar> \<le> E + 1 / 30"
  using add_step [of x "num_neg y" F T E] num_neg_val [OF assms(2)] assms
  by (simp add: num_sub_def)

lemma div_step:
  assumes "num_is_finite x" "num_is_finite y" "real_val y \<noteq> 0"
    and "1 \<le> F" "F \<le> 10 ^ 22" "\<bar>real_val x / real_val y * F - T\<bar> \<le> E" "\<bar>T\<bar> + E \<le> 2 ^ 48"
  shows "num_is_finite (num_div x y) \<and> \<bar>real_val (num_div x y) * F - T\<bar> \<le> E + 1 / 30"
  using num_div_val [OF assms(1-3)] round_step [OF assms(4-7)] by simp

lemma round_exact:
  assumes "num_is_finite x" "\<bar>real_val x - of_int N\<bar> < 1 / 2"
  shows "num_is_finite (math_round x) \<and> real_val (math_round x) = of_int N"
  using math_round_val [OF assms(1)] floor_near [OF assms(2)] by simp


lemma precise_add_sub_unfold:
  assumes "max (decimal_places a) (decimal_places b) = p"
    and "math_pow rt (Fin 10) (of_count p) = f"
  shows "preciseAdd rt a b = num_div (math_round (num_add (num_mul a f) (num_mul b f))) f"
    and "preciseSubtract rt a b = num_div (math_round (num_sub (num_mul a f) (num_mul b f))) f"
  using assms
  by (simp_all add: preciseAdd_def preciseSubtract_def getDecimalPlaces_decimal_places
      math_max_max del: math_max.simps)

text \<open>
  C9, amended: let \<open>a\<close> and \<open>b\<close> be the doubles nearest to the decimals
  \<open>X / 10^p\<close> and \<open>Y / 10^p\<close>, for integers \<open>X\<close> and \<open>Y\<close> with
  \<open>|X| + |Y| \<le> 2^46\<close>, where \<open>p \<le> 22\<close> is the larger of the decimal-place
  counts of \<open>a\<close> and \<open>b\<close>. Then \<open>preciseAdd(a, b) + preciseSubtract(a, b)\<close> and
  \<open>2 * a\<close> are equal after each is rounded to \<open>p\<close> decimal places.
\<close>

theorem add_sub_identity_scaled_bound:
  assumes p: "p \<le> 22"
    and a: "a = num_lit (of_int X / 10 ^ p)" and b: "b = num_lit (of_int Y / 10 ^ p)"
    and dp: "max (decimal_places a) (decimal_places b) = p"
    and M: "\<bar>X\<bar> + \<bar>Y\<bar> \<le> 2 ^ 46"
  shows "add_sub_identity rt a b"
proof -
  define F :: rat where "F = 10 ^ p"
  define QX :: rat where "QX = of_int X"
  define QY :: rat where "QY = of_int Y"
  have F1: "1 \<le> F" by (simp add: F_def)
  have F2: "F \<le> 10 ^ 22"
    unfolding F_def using p by (intro power_increasing) auto
  have F0: "0 < F" using F1 by simp
  have f: "math_pow rt (Fin 10) (of_count p) = Fin F"
    using pow10_exact [OF p] by (simp add: F_def)
  have "(of_int (\<bar>X\<bar> + \<bar>Y\<bar>) :: rat) \<le> of_int (2 ^ 46)"
    using M by (simp only: of_int_le_iff)
  then have MQ: "\<bar>QX\<bar> + \<bar>QY\<bar> \<le> 70368744177664"
    by (simp add: QX_def QY_def)
  define x where "x = num_mul a (Fin F)"
  define y where "y = num_mul b (Fin F)"
  define sadd where "sadd = num_add x y"
  define ssub where "ssub = num_sub x y"
  define padd where "padd = num_div (math_round sadd) (Fin F)"
  define psub where "psub = num_div (math_round ssub) (Fin F)"
  define lhs where "lhs = num_add padd psub"
  define rhs where "rhs = num_mul (Fin 2) a"
  define lm where "lm = num_mul lhs (Fin F)"
  define rm where "rm = num_mul rhs (Fin F)"
  have one: "(1::rat) \<le> 1" "(1::rat) \<le> 10 ^ 22" by simp_all
  have a1: "num_is_finite a \<and> \<bar>real_val a * F - QX\<bar> \<le> 0 + 1 / 30"
    unfolding a num_lit_def
  proof (rule round_step [OF F1 F2])
    show "\<bar>of_int X / 10 ^ p * F - QX\<bar> \<le> 0" by (simp add: F_def QX_def)
    show "\<bar>QX\<bar> + 0 \<le> 2 ^ 48" using MQ by simp
  qed
  have b1: "num_is_finite b \<and> \<bar>real_val b * F - QY\<bar> \<le> 0 + 1 / 30"
    unfolding b num_lit_def
  proof (rule round_step [OF F1 F2])
    show "\<bar>of_int Y / 10 ^ p * F - QY\<bar> \<le> 0" by (simp add: F_def QY_def)
    show "\<bar>QY\<bar> + 0 \<le> 2 ^ 48" using MQ by simp
  qed
  have fF: "num_is_finite (Fin F)" "real_val (Fin F) = F" "num_is_finite (Fin 2)" "real_val (Fin 2) = 2"
    by simp_all
  have x1: "num_is_finite x \<and> \<bar>real_val x * 1 - QX\<bar> \<le> 1 / 30 + 1 / 30"
    unfolding x_def
  proof (rule mul_step [OF _ fF(1) one])
    show "num_is_finite a" using a1 by simp
    show "\<bar>real_val a * real_val (Fin F) * 1 - QX\<bar> \<le> 1 / 30" using a1 by simp
    show "\<bar>QX\<bar> + 1 / 30 \<le> 2 ^ 48" using MQ by simp
  qed
  have y1: "num_is_finite y \<and> \<bar>real_val y * 1 - QY\<bar> \<le> 1 / 30 + 1 / 30"
    unfolding y_def
  proof (rule mul_step [OF _ fF(1) one])
    show "num_is_finite b" using b1 by simp
    show "\<bar>real_val b * real_val (Fin F) * 1 - QY\<bar> \<le> 1 / 30" using b1 by simp
    show "\<bar>QY\<bar> + 1 / 30 \<le> 2 ^ 48" using MQ by simp
  qed
  have sadd1: "num_is_finite sadd \<and> \<bar>real_val sadd * 1 - (QX + QY)\<bar> \<le> 4 / 30 + 1 / 30"
    unfolding sadd_def
  proof (rule add_step [OF _ _ one])
    show "num_is_finite x" "num_is_finite y" using x1 y1 by simp_all
    show "\<bar>(real_val x + real_val y) * 1 - (QX + QY)\<bar> \<le> 4 / 30" using x1 [THEN conjunct2] y1 [THEN conjunct2] unfolding mult_1_right by linarith
    show "\<bar>QX + QY\<bar> + 4 / 30 \<le> 2 ^ 48" using MQ by simp
  qed
  have ssub1: "num_is_finite ssub \<and> \<bar>real_val ssub * 1 - (QX - QY)\<bar> \<le> 4 / 30 + 1 / 30"
    unfolding ssub_def
  proof (rule sub_step [OF _ _ one])
    show "num_is_finite x" "num_is_finite y" using x1 y1 by simp_all
    show "\<bar>(real_val x - real_val y) * 1 - (QX - QY)\<bar> \<le> 4 / 30" using x1 [THEN conjunct2] y1 [THEN conjunct2] unfolding mult_1_right by linarith
    show "\<bar>QX - QY\<bar> + 4 / 30 \<le> 2 ^ 48" using MQ by simp
  qed
  have radd: "num_is_finite (math_round sadd) \<and> real_val (math_round sadd) = of_int (X + Y)"
  proof (rule round_exact)
    show "num_is_finite sadd" using sadd1 by simp
    show "\<bar>real_val sadd - of_int (X + Y)\<bar> < 1 / 2"
      using sadd1 by (simp add: QX_def QY_def)
  qed
  have rsub: "num_is_finite (math_round ssub) \<and> real_val (math_round ssub) = of_int (X - Y)"
  proof (rule round_exact)
    show "num_is_finite ssub" using ssub1 by simp
    show "\<bar>real_val ssub - of_int (X - Y)\<bar> < 1 / 2"
      using ssub1 by (simp add: QX_def QY_def)
  qed
  have padd1: "num_is_finite padd \<and> \<bar>real_val padd * F - (QX + QY)\<bar> \<le> 0 + 1 / 30"
    unfolding padd_def
  proof (rule div_step [OF _ fF(1) _ F1 F2])
    show "num_is_finite (math_round sadd)" using radd by simp
    show "real_val (Fin F) \<noteq> 0" using F0 by simp
    show "\<bar>real_val (math_round sadd) / real_val (Fin F) * F - (QX + QY)\<bar> \<le> 0"
      using radd F0 by (simp add: QX_def QY_def)
    show "\<bar>QX + QY\<bar> + 0 \<le> 2 ^ 48" using MQ by simp
  qed
  have psub1: "num_is_finite psub \<and> \<bar>real_val psub * F - (QX - QY)\<bar> \<le> 0 + 1 / 30"
    unfolding psub_def
  proof (rule div_step [OF _ fF(1) _ F1 F2])
    show "num_is_finite (math_round ssub)" using rsub by simp
    show "real_val (Fin F) \<noteq> 0" using F0 by simp
    show "\<bar>real_val (math_round ssub) / real_val (Fin F) * F - (QX - QY)\<bar> \<le> 0"
      using rsub F0 by (simp add: QX_def QY_def)
    show "\<bar>QX - QY\<bar> + 0 \<le> 2 ^ 48" using MQ by simp
  qed
  have lhs1: "num_is_finite lhs \<and> \<bar>real_val lhs * F - 2 * QX\<bar> \<le> 2 / 30 + 1 / 30"
    unfolding lhs_def
  proof (rule add_step [OF _ _ F1 F2])
    show "num_is_finite padd" "num_is_finite psub" using padd1 psub1 by simp_all
    have "(real_val padd + real_val psub) * F = real_val padd * F + real_val psub * F"
      by (simp add: distrib_right)
    moreover note padd1 [THEN conjunct2] psub1 [THEN conjunct2]
    ultimately show "\<bar>(real_val padd + real_val psub) * F - 2 * QX\<bar> \<le> 2 / 30"
      by linarith
    show "\<bar>2 * QX\<bar> + 2 / 30 \<le> 2 ^ 48" using MQ by simp
  qed
  have rhs1: "num_is_finite rhs \<and> \<bar>real_val rhs * F - 2 * QX\<bar> \<le> 2 / 30 + 1 / 30"
    unfolding rhs_def
  proof (rule mul_step [OF fF(3) _ F1 F2])
    show "num_is_finite a" using a1 by simp
    have "real_val (Fin 2) * real_val a * F = 2 * (real_val a * F)"
      by simp
    moreover note a1 [THEN conjunct2]
    ultimately show "\<bar>real_val (Fin 2) * real_val a * F - 2 * QX\<bar> \<le> 2 / 30"
      by linarith
    show "\<bar>2 * QX\<bar> + 2 / 30 \<le> 2 ^ 48" using MQ by simp
  qed
  have lm1: "num_is_finite lm \<and> \<bar>real_val lm * 1 - 2 * QX\<bar> \<le> 3 / 30 + 1 / 30"
    unfolding lm_def
  proof (rule mul_step [OF _ fF(1) one])
    show "num_is_finite lhs" using lhs1 by simp
    show "\<bar>real_val lhs * real_val (Fin F) * 1 - 2 * QX\<bar> \<le> 3 / 30" using lhs1 by simp
    show "\<bar>2 * QX\<bar> + 3 / 30 \<le> 2 ^ 48" using MQ by simp
  qed
  have rm1: "num_is_finite rm \<and> \<bar>real_val rm * 1 - 2 * QX\<bar> \<le> 3 / 30 + 1 / 30"
    unfolding rm_def
  proof (rule mul_step [OF _ fF(1) one])
    show "num_is_finite rhs" using rhs1 by simp
    show "\<bar>real_val rhs * real_val (Fin F) * 1 - 2 * QX\<bar> \<le> 3 / 30" using rhs1 by simp
    show "\<bar>2 * QX\<bar> + 3 / 30 \<le> 2 ^ 48" using MQ by simp
  qed
  have lr: "num_is_finite (math_round lm) \<and> real_val (math_round lm) = of_int (2 * X)"
  proof (rule round_exact)
    show "num_is_finite lm" using lm1 by simp
    show "\<bar>real_val lm - of_int (2 * X)\<bar> < 1 / 2"
      using lm1 by (simp add: QX_def)
  qed
  have rr: "num_is_finite (math_round rm) \<and> real_val (math_round rm) = of_int (2 * X)"
  proof (rule round_exact)
    show "num_is_finite rm" using rm1 by simp
    show "\<bar>real_val rm - of_int (2 * X)\<bar> < 1 / 2"
      using rm1 by (simp add: QX_def)
  qed
  have eq: "strict_eq (num_div (math_round lm) (Fin F)) (num_div (math_round rm) (Fin F))"
    using strict_eq_quotients [of "math_round lm" "math_round rm" F] lr rr F0 by simp
  have pa: "preciseAdd rt a b = padd" and ps: "preciseSubtract rt a b = psub"
    using precise_add_sub_unfold [OF dp f]
    by (simp_all add: padd_def psub_def sadd_def ssub_def x_def y_def)
  show ?thesis
    using eq
    by (simp add: add_sub_identity_def Let_def dp scaled_def f pa ps lm_def rm_def lhs_def rhs_def)
qed


theorem add_sub_identity_scaled_bound_witness:
  "(1::nat) \<le> 22
   \<and> num_lit (1 / 10) = num_lit (of_int 1 / 10 ^ 1)
   \<and> num_lit (2 / 10) = num_lit (of_int 2 / 10 ^ 1)
   \<and> max (decimal_places (num_lit (1 / 10))) (decimal_places (num_lit (2 / 10))) = 1
   \<and> \<bar>1 :: int\<bar> + \<bar>2\<bar> \<le> 2 ^ 46
   \<and> add_sub_identity plain_runtime (num_lit (1 / 10)) (num_lit (2 / 10))"
proof -
  have p: "(1::nat) \<le> 22"
    by simp
  have e1: "num_lit (1 / 10) = num_lit (of_int 1 / 10 ^ 1)"
    by simp
  have e2: "num_lit (2 / 10) = num_lit (of_int 2 / 10 ^ 1)"
    by simp
  have d: "max (decimal_places (num_lit (1 / 10))) (decimal_places (num_lit (2 / 10))) = 1"
    by code_simp
  have m: "\<bar>1 :: int\<bar> + \<bar>2\<bar> \<le> 2 ^ 46"
    by simp
  from add_sub_identity_scaled_bound [OF p e1 e2 d m, where rt = plain_runtime] p e1 e2 d m
  show ?thesis
    by blast
qed

text \<open>
  C9, as the specification states it, fails. \<open>a = 0.0001\<close> and
  \<open>b = 901915207085\<close> have 13 significant digits together; scaled by \<open>10^4\<close>,
  \<open>b\<close> lies above \<open>2^53\<close> and absorbs the scaled \<open>a\<close>, so that
  \<open>preciseAdd(a, b)\<close> is \<open>b\<close>, \<open>preciseSubtract(a, b)\<close> is \<open>-b\<close>, and their sum is
  \<open>0\<close>, while \<open>2 * a\<close> is \<open>0.0002\<close>; rounding both to four decimal places
  leaves them different.
\<close>

theorem add_sub_identity_fails:
  "significant_digits (num_lit (1 / 10000)) + significant_digits (num_lit 901915207085) = 13
   \<and> preciseAdd plain_runtime (num_lit (1 / 10000)) (num_lit 901915207085) = num_lit 901915207085
   \<and> preciseSubtract plain_runtime (num_lit (1 / 10000)) (num_lit 901915207085)
       = num_lit (- 901915207085)
   \<and> num_mul (Fin 2) (num_lit (1 / 10000)) = num_lit (2 / 10000)
   \<and> \<not> strict_eq
        (num_add (preciseAdd plain_runtime (num_lit (1 / 10000)) (num_lit 901915207085))
           (preciseSubtract plain_runtime (num_lit (1 / 10000)) (num_lit 901915207085)))
        (num_mul (Fin 2) (num_lit (1 / 10000)))
   \<and> \<not> add_sub_identity plain_runtime (num_lit (1 / 10000)) (num_lit 901915207085)"
proof -
  have sd: "significant_digits (num_lit (1 / 10000)) + significant_digits (num_lit 901915207085) = 13"
    by code_simp
  have da: "getDecimalPlaces (num_lit (1 / 10000)) = 4"
    by code_simp
  have db: "getDecimalPlaces (num_lit 901915207085) = 0"
    by code_simp
  have pw: "math_pow plain_runtime (Fin 10) (of_count 4) = Fin 10000"
    using pow10_exact [of 4 plain_runtime] by simp
  have add: "num_div (math_round (num_add (num_mul (num_lit (1 / 10000)) (Fin 10000))
        (num_mul (num_lit 901915207085) (Fin 10000)))) (Fin 10000) = num_lit 901915207085"
    by code_simp
  have sub: "num_div (math_round (num_sub (num_mul (num_lit (1 / 10000)) (Fin 10000))
        (num_mul (num_lit 901915207085) (Fin 10000)))) (Fin 10000) = num_lit (- 901915207085)"
    by code_simp
  have pa: "preciseAdd plain_runtime (num_lit (1 / 10000)) (num_lit 901915207085) = num_lit 901915207085"
    using add by (simp add: preciseAdd_def da db pw)
  have ps: "preciseSubtract plain_runtime (num_lit (1 / 10000)) (num_lit 901915207085)
      = num_lit (- 901915207085)"
    using sub by (simp add: preciseSubtract_def da db pw)
  have two: "num_mul (Fin 2) (num_lit (1 / 10000)) = num_lit (2 / 10000)"
    by code_simp
  have ne: "\<not> strict_eq (num_add (num_lit 901915207085) (num_lit (- 901915207085)))
      (num_lit (2 / 10000))"
    by code_simp
  have ne2: "\<not> strict_eq
      (num_div (math_round (num_mul (num_add (num_lit 901915207085) (num_lit (- 901915207085)))
         (Fin 10000))) (Fin 10000))
      (num_div (math_round (num_mul (num_lit (2 / 10000)) (Fin 10000))) (Fin 10000))"
    by code_simp
  have dpl: "max (decimal_places (num_lit (1 / 10000))) (decimal_places (num_lit 901915207085)) = 4"
    using da db by (simp add: getDecimalPlaces_decimal_places [symmetric])
  have id: "\<not> add_sub_identity plain_runtime (num_lit (1 / 10000)) (num_lit 901915207085)"
    using ne2 by (simp add: add_sub_identity_def Let_def dpl scaled_def pw pa ps two)
  from sd pa ps two ne id show ?thesis
    by simp
qed


subsection \<open>Addition and subtraction of bounded decimals\<close>























subsection \<open>Chains and the documented transforms\<close>



lemma num_lt_zero_negative: "num_lt acc (Fin 0) = is_negative acc"
  by (cases acc) (auto simp: is_negative_def)







end
